theory Spec2Isabelle
  imports Complex_Main "HOL-Library.Char_ord" "HOL-Library.List_Lexorder"
    "HOL-Library.Product_Lexorder" "HOL-Library.Option_ord" "HOL-Library.Multiset"
begin

section \<open>The relational engine, as far as the nine queries use it\<close>

text \<open>
  The aggregation layer of \<^verbatim>\<open>security_dashboard_loader.py\<close> is nine SQL texts run by
  SQLite over three tables. A table is the list of its rows in insertion order. A column
  that the data model declares nullable is an \<open>option\<close> (\<open>None\<close> is SQL NULL, which is
  also what a pandas NaN or NaT becomes when the frame is written to the store); numbers
  are exact rationals, so an INTEGER and a REAL with the same value are the same number.
  Text is compared bytewise (SQLite's BINARY collation, Python's code-point order), which
  is the lexicographic order on \<open>string\<close>.
\<close>

subsection \<open>Three-valued comparisons\<close>

definition sql_lt :: "rat option \<Rightarrow> rat option \<Rightarrow> bool option" where
  "sql_lt a b = (case (a, b) of (Some x, Some y) \<Rightarrow> Some (x < y) | _ \<Rightarrow> None)"

definition sql_le :: "rat option \<Rightarrow> rat option \<Rightarrow> bool option" where
  "sql_le a b = (case (a, b) of (Some x, Some y) \<Rightarrow> Some (x \<le> y) | _ \<Rightarrow> None)"

definition sql_and :: "bool option \<Rightarrow> bool option \<Rightarrow> bool option" where
  "sql_and p q =
     (if p = Some False \<or> q = Some False then Some False
      else if p = Some True \<and> q = Some True then Some True else None)"

text \<open>\<^verbatim>\<open>x BETWEEN lo AND hi\<close> is \<^verbatim>\<open>x >= lo AND x <= hi\<close>.\<close>

definition sql_between :: "rat option \<Rightarrow> rat option \<Rightarrow> rat option \<Rightarrow> bool option" where
  "sql_between x lo hi = sql_and (sql_le lo x) (sql_le x hi)"

text \<open>A \<^verbatim>\<open>WHEN\<close> branch or a \<^verbatim>\<open>WHERE\<close> clause is taken only when its condition is true.\<close>

definition is_true :: "bool option \<Rightarrow> bool" where
  "is_true p = (p = Some True)"

subsection \<open>GROUP BY, ORDER BY, LIMIT, aggregates\<close>

text \<open>
  SQLite groups by sorting the rows on the grouping key and emits one row per key, in key
  order. When the query has as many ORDER BY terms as GROUP BY terms, the grouping sort
  takes over the ASC/DESC direction of the ORDER BY terms, so a one-column
  \<^verbatim>\<open>GROUP BY k ORDER BY agg DESC\<close> emits its groups in descending key order. The ORDER BY
  sort that follows keeps rows with equal sort keys in the order in which they were
  emitted (\<open>sort_key\<close> is stable), and \<^verbatim>\<open>LIMIT n\<close> keeps the first \<open>n\<close> rows.
\<close>

definition group_keys_asc :: "'k::linorder list \<Rightarrow> 'k list" where
  "group_keys_asc ks = sort (remdups ks)"

definition group_keys_desc :: "'k::linorder list \<Rightarrow> 'k list" where
  "group_keys_desc ks = rev (sort (remdups ks))"

definition group_rows :: "('r \<Rightarrow> 'k) \<Rightarrow> 'r list \<Rightarrow> 'k \<Rightarrow> 'r list" where
  "group_rows key rows k = filter (\<lambda>r. key r = k) rows"

definition order_by_desc :: "('r \<Rightarrow> nat) \<Rightarrow> 'r list \<Rightarrow> 'r list" where
  "order_by_desc cnt rows = sort_key (\<lambda>r. - int (cnt r)) rows"

text \<open>\<^verbatim>\<open>SUM(CASE WHEN c THEN 1 ELSE 0 END)\<close> over a group.\<close>

definition sum_case :: "('r \<Rightarrow> bool) \<Rightarrow> 'r list \<Rightarrow> nat" where
  "sum_case c g = sum_list (map (\<lambda>r. if c r then 1 else 0) g)"

text \<open>\<^verbatim>\<open>AVG\<close> ignores NULLs and is NULL when nothing is left.\<close>

definition sql_avg :: "rat option list \<Rightarrow> rat option" where
  "sql_avg xs =
     (let ys = concat (map (\<lambda>x. case x of None \<Rightarrow> [] | Some y \<Rightarrow> [y]) xs)
      in if ys = [] then None else Some (sum_list ys / of_nat (length ys)))"

text \<open>\<^verbatim>\<open>ROUND(x, 1)\<close>: to one decimal, halves away from zero.\<close>

definition round1 :: "rat \<Rightarrow> rat" where
  "round1 x =
     (if 0 \<le> x then of_int \<lfloor>x * 10 + 1 / 2\<rfloor> / 10
      else - (of_int \<lfloor>- x * 10 + 1 / 2\<rfloor> / 10))"

section \<open>The vulnerabilities table\<close>

record vulnerability =
  Department :: string
  Vuln_Severity :: string
  Days_Open :: "rat option"
  Solution_Status :: string
  Vulnerability_Title :: string

subsection \<open>Query 6: Vulnerability Aging\<close>

text \<open>The \<^verbatim>\<open>CASE\<close> expression of \<^verbatim>\<open>vuln_age_query\<close>, branch by branch.\<close>

definition Age_Group :: "rat option \<Rightarrow> string" where
  "Age_Group d =
     (if is_true (sql_lt d (Some 30)) then ''< 30 days''
      else if is_true (sql_between d (Some 30) (Some 90)) then ''30-90 days''
      else if is_true (sql_between d (Some 91) (Some 180)) then ''91-180 days''
      else ''> 180 days'')"

text \<open>The \<^verbatim>\<open>CASE Age_Group\<close> expression of the ORDER BY clause.\<close>

definition Age_Rank :: "string \<Rightarrow> nat" where
  "Age_Rank b =
     (if b = ''< 30 days'' then 1
      else if b = ''30-90 days'' then 2
      else if b = ''91-180 days'' then 3
      else 4)"

definition age_bands :: "string list" where
  "age_bands = [''< 30 days'', ''30-90 days'', ''91-180 days'', ''> 180 days'']"

definition is_open :: "vulnerability \<Rightarrow> bool" where
  "is_open v = (Solution_Status v = ''Open'')"

definition age_key :: "vulnerability \<Rightarrow> string \<times> string" where
  "age_key v = (Department v, Age_Group (Days_Open v))"

text \<open>A row of the long-form table: Department, Age\_Group, Count.\<close>

type_synonym age_row = "string \<times> string \<times> nat"

definition vuln_age_query :: "vulnerability list \<Rightarrow> age_row list" where
  "vuln_age_query vs =
     (let opn = filter is_open vs;
          groups = map (\<lambda>k. (fst k, snd k, length (group_rows age_key opn k)))
                       (group_keys_asc (map age_key opn));
          having = filter (\<lambda>(d, b, c). c > 0) groups
      in sort_key (\<lambda>(d, b, c). (d, Age_Rank b)) having)"

text \<open>
  A record is counted in the row of the long-form table that carries its grouping key:
  it passed the \<^verbatim>\<open>WHERE\<close> clause and its (Department, Age\_Group) pair is the row's.
\<close>

definition counted_in :: "vulnerability \<Rightarrow> age_row \<Rightarrow> bool" where
  "counted_in v row = (is_open v \<and> age_key v = (fst row, fst (snd row)))"

definition age_count :: "age_row \<Rightarrow> nat" where
  "age_count row = snd (snd row)"

definition vuln_it :: "rat option \<Rightarrow> vulnerability" where
  "vuln_it d = \<lparr>Department = ''IT'', Vuln_Severity = ''High'', Days_Open = d,
     Solution_Status = ''Open'', Vulnerability_Title = ''Outdated TLS''\<rparr>"

subsection \<open>The reshape of the long-form table\<close>

text \<open>
  \<^verbatim>\<open>vuln_age_df.pivot(index='Department', columns='Age_Group', values='Count').fillna(0)\<close>.
  \<^verbatim>\<open>pivot\<close> raises \<^verbatim>\<open>ValueError\<close> when an (index, column) pair occurs twice; otherwise
  the row labels are the departments and the column labels the age groups that occur,
  each sorted and without repetition, and a cell without a long-form row is missing (NaN,
  here \<open>None\<close>). \<^verbatim>\<open>fillna(0)\<close> replaces the missing cells by 0.
\<close>

datatype py_error = ValueError

record 'v frame =
  index :: "string list"
  columns :: "string list"
  cells :: "'v list list"

definition pivot :: "age_row list \<Rightarrow> py_error + nat option frame" where
  "pivot rows =
     (if \<not> distinct (map (\<lambda>(d, b, c). (d, b)) rows) then Inl ValueError
      else
        let idx = sort (remdups (map (\<lambda>(d, b, c). d) rows));
            cols = sort (remdups (map (\<lambda>(d, b, c). b) rows));
            cell = map_of (map (\<lambda>(d, b, c). ((d, b), c)) rows)
        in Inr \<lparr>index = idx, columns = cols,
                cells = map (\<lambda>d. map (\<lambda>b. cell (d, b)) cols) idx\<rparr>)"

definition fillna :: "'v \<Rightarrow> 'v option frame \<Rightarrow> 'v frame" where
  "fillna z m =
     \<lparr>index = index m, columns = columns m,
      cells = map (map (\<lambda>v. case v of None \<Rightarrow> z | Some c \<Rightarrow> c)) (cells m)\<rparr>"

definition vuln_age_pivot :: "vulnerability list \<Rightarrow> py_error + nat frame" where
  "vuln_age_pivot vs =
     (case pivot (vuln_age_query vs) of Inl e \<Rightarrow> Inl e | Inr m \<Rightarrow> Inr (fillna 0 m))"

text \<open>Position of a label, and the cell at a pair of labels (\<^verbatim>\<open>.loc[d, b]\<close>).\<close>

fun position :: "'a \<Rightarrow> 'a list \<Rightarrow> nat" where
  "position a [] = 0"
| "position a (x # xs) = (if a = x then 0 else Suc (position a xs))"

definition loc :: "'v frame \<Rightarrow> string \<Rightarrow> string \<Rightarrow> 'v option" where
  "loc m d b =
     (if d \<in> set (index m) \<and> b \<in> set (columns m)
      then Some (cells m ! position d (index m) ! position b (columns m))
      else None)"

definition long_form_count :: "age_row list \<Rightarrow> string \<Rightarrow> string \<Rightarrow> nat option" where
  "long_form_count rows d b = map_of (map (\<lambda>(d, b, c). ((d, b), c)) rows) (d, b)"

subsection \<open>Queries 3, 7, 8 and 9\<close>

text \<open>A row of Vulnerability Hotspots: Department, Total, Critical\_Count, Avg\_Days\_Open.\<close>

type_synonym hotspot_row = "string \<times> nat \<times> nat \<times> rat option"

definition is_critical :: "vulnerability \<Rightarrow> bool" where
  "is_critical v = (Vuln_Severity v = ''Critical'')"

definition vuln_hotspot_query :: "vulnerability list \<Rightarrow> hotspot_row list" where
  "vuln_hotspot_query vs =
     (let opn = filter is_open vs;
          groups = map (\<lambda>d. let g = group_rows Department opn d
                             in (d, length g, sum_case is_critical g,
                                 map_option round1 (sql_avg (map Days_Open g))))
                       (group_keys_desc (map Department opn))
      in take 5 (order_by_desc (\<lambda>(d, t, c, a). c) groups))"

definition vuln_type_query :: "vulnerability list \<Rightarrow> (string \<times> nat) list" where
  "vuln_type_query vs =
     (let opn = filter is_open vs;
          groups = map (\<lambda>t. (t, length (group_rows Vulnerability_Title opn t)))
                       (group_keys_desc (map Vulnerability_Title opn))
      in take 5 (order_by_desc snd groups))"

text \<open>\<^verbatim>\<open>vuln_type_df['Vulnerability_Title'].str[:25] + '...'\<close>\<close>

definition Short_Title :: "string \<Rightarrow> string" where
  "Short_Title t = take 25 t @ ''...''"

definition vuln_type_df :: "vulnerability list \<Rightarrow> (string \<times> nat \<times> string) list" where
  "vuln_type_df vs = map (\<lambda>(t, c). (t, c, Short_Title t)) (vuln_type_query vs)"

definition status_query :: "vulnerability list \<Rightarrow> (string \<times> nat) list" where
  "status_query vs =
     map (\<lambda>s. (s, length (group_rows Solution_Status vs s)))
         (group_keys_asc (map Solution_Status vs))"

definition critical_vuln_query :: "vulnerability list \<Rightarrow> (string \<times> nat) list" where
  "critical_vuln_query vs =
     (let sel = filter (\<lambda>v. is_critical v \<and> is_open v) vs;
          groups = map (\<lambda>d. (d, length (group_rows Department sel d)))
                       (group_keys_desc (map Department sel))
      in take 5 (order_by_desc snd groups))"

definition aging_example :: "vulnerability list" where
  "aging_example = [vuln_it (Some 10), vuln_it (Some 45), vuln_it (Some 95), vuln_it (Some 200)]"

definition vuln_closed :: vulnerability where
  "vuln_closed = \<lparr>Department = ''HR'', Vuln_Severity = ''Critical'', Days_Open = Some 12,
     Solution_Status = ''Closed'', Vulnerability_Title = ''Weak password policy''\<rparr>"

definition two_dept_example :: "vulnerability list" where
  "two_dept_example =
     [vuln_it (Some 10), vuln_closed\<lparr>Solution_Status := ''Open'', Days_Open := Some 200\<rparr>]"

text \<open>
  The four bands as the specification words them: below 30, 30 to 90 inclusive, 91 to 180
  inclusive, above 180.
\<close>

definition in_band :: "string \<Rightarrow> rat \<Rightarrow> bool" where
  "in_band b x =
     ((b = ''< 30 days'' \<and> x < 30) \<or> (b = ''30-90 days'' \<and> 30 \<le> x \<and> x \<le> 90)
      \<or> (b = ''91-180 days'' \<and> 91 \<le> x \<and> x \<le> 180) \<or> (b = ''> 180 days'' \<and> 180 < x))"

text \<open>The number of open vulnerabilities of a department in a band.\<close>

definition open_in :: "vulnerability list \<Rightarrow> string \<Rightarrow> string \<Rightarrow> nat" where
  "open_in vs d b =
     length (filter (\<lambda>v. is_open v \<and> Department v = d \<and> Age_Group (Days_Open v) = b) vs)"

section \<open>The incidents table\<close>

text \<open>
  The loader turns \<^verbatim>\<open>Date_Reported\<close> into a timestamp (\<^verbatim>\<open>errors='coerce'\<close>: what does not
  parse becomes missing). A timestamp is a calendar date and the second of the day; pandas
  timestamps have four-digit years.
\<close>

record timestamp =
  year :: nat
  month :: nat
  day :: nat
  second_of_day :: nat

record incident =
  Date_Reported :: "timestamp option"
  Severity :: string
  Incident_Type :: string
  Status :: string
  Response_Time_Min :: "rat option"

definition digit_char :: "nat \<Rightarrow> char" where
  "digit_char n = ''0123456789'' ! (n mod 10)"

text \<open>\<^verbatim>\<open>strftime('%Y-%m', ...)\<close>: four digits of the year, a dash, two digits of the month.\<close>

definition strftime_Ym :: "timestamp \<Rightarrow> string" where
  "strftime_Ym t =
     [digit_char (year t div 1000), digit_char (year t div 100), digit_char (year t div 10),
      digit_char (year t), CHR ''-'', digit_char (month t div 10), digit_char (month t)]"

definition Month :: "incident \<Rightarrow> string option" where
  "Month i = map_option strftime_Ym (Date_Reported i)"

subsection \<open>Query 1: MTTR Trend\<close>

text \<open>A row: Month, Total\_Incidents, Critical\_Incidents, Avg\_Response\_Hours.\<close>

type_synonym mttr_row = "string option \<times> nat \<times> nat \<times> rat option"

definition mttr_selected :: "incident \<Rightarrow> bool" where
  "mttr_selected i = (Status i = ''Resolved'' \<and> Response_Time_Min i \<noteq> None)"

definition is_critical_incident :: "incident \<Rightarrow> bool" where
  "is_critical_incident i = (Severity i = ''Critical'')"

definition mttr_query :: "incident list \<Rightarrow> mttr_row list" where
  "mttr_query incs =
     (let sel = filter mttr_selected incs;
          groups = map (\<lambda>m. let g = group_rows Month sel m
                             in (m, length g, sum_case is_critical_incident g,
                                 map_option (\<lambda>a. round1 (a / 60))
                                   (sql_avg (map Response_Time_Min g))))
                       (group_keys_asc (map Month sel))
      in sort_key fst groups)"

subsection \<open>Query 2: Top Incident Types\<close>

text \<open>A row: Incident\_Type, Count, Percentage.\<close>

type_synonym incident_type_row = "string \<times> nat \<times> rat"

definition type_count :: "incident list \<Rightarrow> string \<Rightarrow> nat" where
  "type_count incs t = length (group_rows Incident_Type incs t)"

definition Percentage :: "incident list \<Rightarrow> string \<Rightarrow> rat" where
  "Percentage incs t = round1 (of_nat (type_count incs t) * 100 / of_nat (length incs))"

definition incident_type_groups :: "incident list \<Rightarrow> incident_type_row list" where
  "incident_type_groups incs =
     map (\<lambda>t. (t, type_count incs t, Percentage incs t))
         (group_keys_desc (map Incident_Type incs))"

definition incident_type_query :: "incident list \<Rightarrow> incident_type_row list" where
  "incident_type_query incs = take 6 (order_by_desc (\<lambda>(t, c, p). c) (incident_type_groups incs))"

subsection \<open>Query 5: Incident Severity\<close>

definition severity_query :: "incident list \<Rightarrow> (string \<times> nat) list" where
  "severity_query incs =
     map (\<lambda>s. (s, length (group_rows Severity incs s))) (group_keys_asc (map Severity incs))"

text \<open>An incident resolved in January 2024.\<close>

definition jan_2024 :: "nat \<Rightarrow> string \<Rightarrow> rat \<Rightarrow> incident" where
  "jan_2024 d sev mins =
     \<lparr>Date_Reported = Some \<lparr>year = 2024, month = 1, day = d, second_of_day = 0\<rparr>,
      Severity = sev, Incident_Type = ''Phishing'', Status = ''Resolved'',
      Response_Time_Min = Some mins\<rparr>"

definition incident_of_type :: "string \<Rightarrow> incident" where
  "incident_of_type t =
     \<lparr>Date_Reported = None, Severity = ''Low'', Incident_Type = t, Status = ''Open'',
      Response_Time_Min = None\<rparr>"



section \<open>Properties\<close>

subsection \<open>Grouping\<close>

lemma set_group_keys_asc [simp]: "set (group_keys_asc ks) = set ks"
  by (simp add: group_keys_asc_def)

lemma distinct_group_keys_asc [simp]: "distinct (group_keys_asc ks)"
  by (simp add: group_keys_asc_def)

lemma set_group_keys_desc [simp]: "set (group_keys_desc ks) = set ks"
  by (simp add: group_keys_desc_def)

lemma distinct_group_keys_desc [simp]: "distinct (group_keys_desc ks)"
  by (simp add: group_keys_desc_def)

lemma indicator_sum_distinct:
  "distinct ks \<Longrightarrow> (\<Sum>k\<leftarrow>ks. if a = k then 1 else 0) = (if a \<in> set ks then 1 else (0::nat))"
  by (induction ks) auto

lemma group_sizes_sum:
  "distinct ks \<Longrightarrow> key ` set rows \<subseteq> set ks \<Longrightarrow>
   (\<Sum>k\<leftarrow>ks. length (group_rows key rows k)) = length rows"
proof (induction rows)
  case Nil
  then show ?case by (simp add: group_rows_def)
next
  case (Cons r rows)
  have split: "length (group_rows key (r # rows) k) =
      (if key r = k then 1 else 0) + length (group_rows key rows k)" for k
    by (simp add: group_rows_def)
  have "(\<Sum>k\<leftarrow>ks. length (group_rows key (r # rows) k)) =
      (\<Sum>k\<leftarrow>ks. if key r = k then 1 else 0) + (\<Sum>k\<leftarrow>ks. length (group_rows key rows k))"
    by (simp add: split sum_list_addf)
  also have "\<dots> = 1 + length rows"
    using Cons by (simp add: indicator_sum_distinct)
  finally show ?case by simp
qed

lemma group_rows_nonempty: "k \<in> key ` set rows \<Longrightarrow> 0 < length (group_rows key rows k)"
  by (auto simp: group_rows_def filter_empty_conv)

subsection \<open>The aging bands\<close>

lemma Age_Group_Some:
  "Age_Group (Some x) =
     (if x < 30 then ''< 30 days''
      else if x \<le> 90 then ''30-90 days''
      else if 91 \<le> x \<and> x \<le> 180 then ''91-180 days''
      else ''> 180 days'')"
  by (simp add: Age_Group_def is_true_def sql_lt_def sql_between_def sql_and_def sql_le_def)

lemma Age_Group_None: "Age_Group None = ''> 180 days''"
  by (simp add: Age_Group_def is_true_def sql_lt_def sql_between_def sql_and_def sql_le_def)

lemma Age_Group_in_bands: "Age_Group d \<in> set age_bands"
  by (cases d) (simp_all add: Age_Group_Some Age_Group_None age_bands_def)

lemma distinct_age_bands: "distinct age_bands"
  by (simp add: age_bands_def)

text \<open>
  A value strictly between 90 and 91 passes none of the three \<^verbatim>\<open>WHEN\<close> tests and takes
  the \<^verbatim>\<open>ELSE\<close> label.
\<close>

lemma Age_Group_between_90_91: "90 < x \<Longrightarrow> x < 91 \<Longrightarrow> Age_Group (Some x) = ''> 180 days''"
  by (simp add: Age_Group_Some)

subsection \<open>The long-form aging table\<close>

lemma vuln_age_query_alt:
  "vuln_age_query vs =
     sort_key (\<lambda>(d, b, c). (d, Age_Rank b))
       (map (\<lambda>k. (fst k, snd k, length (group_rows age_key (filter is_open vs) k)))
            (group_keys_asc (map age_key (filter is_open vs))))"
proof -
  have "filter (\<lambda>(d, b, c). c > 0)
          (map (\<lambda>k. (fst k, snd k, length (group_rows age_key (filter is_open vs) k)))
            (group_keys_asc (map age_key (filter is_open vs)))) =
        map (\<lambda>k. (fst k, snd k, length (group_rows age_key (filter is_open vs) k)))
            (group_keys_asc (map age_key (filter is_open vs)))"
    by (rule filter_True) (auto simp: group_rows_def filter_empty_conv)
  then show ?thesis by (simp add: vuln_age_query_def Let_def)
qed

lemma length_filter_eq_distinct:
  "distinct ks \<Longrightarrow> a \<in> set ks \<Longrightarrow> length (filter (\<lambda>k. k = a) ks) = 1"
  by (induction ks) (auto simp: filter_empty_conv)

lemma counted_once:
  assumes "v \<in> set vs" and "is_open v"
  shows "length (filter (counted_in v) (vuln_age_query vs)) = 1"
proof -
  let ?opn = "filter is_open vs"
  let ?ks = "group_keys_asc (map age_key ?opn)"
  let ?mk = "\<lambda>k. (fst k, snd k, length (group_rows age_key ?opn k))"
  have in_ks: "age_key v \<in> set ?ks" using assms by simp
  have "filter (counted_in v) (map ?mk ?ks) = map ?mk (filter (\<lambda>k. k = age_key v) ?ks)"
    using assms(2) by (auto simp: filter_map o_def counted_in_def intro!: arg_cong[where f="map ?mk"] filter_cong)
  then have "length (filter (counted_in v) (map ?mk ?ks)) = 1"
    using in_ks by (simp add: length_filter_eq_distinct)
  then show ?thesis
    by (simp add: vuln_age_query_alt filter_sort)
qed

lemma vuln_age_query_row:
  assumes "v \<in> set vs" and "is_open v"
  shows "(Department v, Age_Group (Days_Open v),
          length (filter (\<lambda>u. is_open u \<and> age_key u = age_key v) vs)) \<in> set (vuln_age_query vs)"
proof -
  have "age_key v \<in> set (group_keys_asc (map age_key (filter is_open vs)))"
    using assms by simp
  moreover have "length (group_rows age_key (filter is_open vs) (age_key v)) =
      length (filter (\<lambda>u. is_open u \<and> age_key u = age_key v) vs)"
    by (simp add: group_rows_def conj_commute)
  ultimately show ?thesis
    by (force simp: vuln_age_query_alt age_key_def)
qed

lemma sum_list_sort_key:
  fixes f :: "'a \<Rightarrow> 'b::comm_monoid_add"
  shows "sum_list (map f (sort_key g xs)) = sum_list (map f xs)"
proof -
  have "mset (map f (sort_key g xs)) = mset (map f xs)" by simp
  then show ?thesis by (metis sum_mset_sum_list)
qed

lemma vuln_age_query_total:
  "sum_list (map age_count (vuln_age_query vs)) = length (filter is_open vs)"
proof -
  let ?opn = "filter is_open vs"
  let ?ks = "group_keys_asc (map age_key ?opn)"
  have "sum_list (map age_count (vuln_age_query vs)) =
      (\<Sum>k\<leftarrow>?ks. length (group_rows age_key ?opn k))"
    by (simp add: vuln_age_query_alt sum_list_sort_key age_count_def o_def)
  also have "\<dots> = length ?opn"
    by (rule group_sizes_sum) auto
  finally show ?thesis .
qed

lemma in_band_iff_Age_Group:
  "x \<le> 90 \<or> 91 \<le> x \<Longrightarrow> in_band b x \<longleftrightarrow> b = Age_Group (Some x)"
  by (auto simp: in_band_def Age_Group_Some)

lemma counted_in_band:
  "counted_in v row \<Longrightarrow> fst (snd row) = Age_Group (Days_Open v)"
  by (auto simp: counted_in_def age_key_def)

text \<open>
  Claim C1, as amended. Every open vulnerability with a numeric days-open value \<open>x\<close> is
  counted in exactly one row of the Vulnerability Aging table, the row of its department
  and of the band the \<^verbatim>\<open>CASE\<close> expression gives it, whose count is the number of open
  vulnerabilities of that department in that band; the counts of the table add up to the
  number of open vulnerabilities. When \<open>x\<close> is not strictly between 90 and 91 (every whole
  number of days is not), exactly one of the four bands below 30, 30 to 90 inclusive,
  91 to 180 inclusive, above 180 contains \<open>x\<close>, and it is the band of the row the
  record is counted in. 30 and 90 days get the band 30-90 days, 91 days the band
  91-180 days.
\<close>

theorem aging_band_of_value:
  assumes "v \<in> set vs" and "is_open v" and "Days_Open v = Some x"
  shows "length (filter (counted_in v) (vuln_age_query vs)) = 1
    \<and> (Department v, Age_Group (Some x), open_in vs (Department v) (Age_Group (Some x)))
         \<in> set (vuln_age_query vs)
    \<and> 0 < open_in vs (Department v) (Age_Group (Some x))
    \<and> sum_list (map age_count (vuln_age_query vs)) = length (filter is_open vs)
    \<and> (x \<le> 90 \<or> 91 \<le> x \<longrightarrow>
         (\<forall>b. in_band b x \<longleftrightarrow> b = Age_Group (Some x))
         \<and> (\<forall>row\<in>set (vuln_age_query vs). counted_in v row \<longrightarrow> in_band (fst (snd row)) x))
    \<and> Age_Group (Some 30) = ''30-90 days'' \<and> Age_Group (Some 90) = ''30-90 days''
    \<and> Age_Group (Some 91) = ''91-180 days''"
proof -
  have eq: "(\<lambda>u. is_open u \<and> age_key u = age_key v) =
      (\<lambda>u. is_open u \<and> Department u = Department v \<and> Age_Group (Days_Open u) = Age_Group (Some x))"
    using assms(3) by (auto simp: age_key_def)
  have row: "(Department v, Age_Group (Some x), open_in vs (Department v) (Age_Group (Some x)))
         \<in> set (vuln_age_query vs)"
    using vuln_age_query_row[OF assms(1,2)] assms(3) by (simp add: open_in_def eq)
  have "v \<in> set (filter (\<lambda>u. is_open u \<and> Department u = Department v
      \<and> Age_Group (Days_Open u) = Age_Group (Some x)) vs)"
    using assms by simp
  then have pos: "0 < open_in vs (Department v) (Age_Group (Some x))"
    unfolding open_in_def by (metis length_pos_if_in_set)
  have band: "x \<le> 90 \<or> 91 \<le> x \<longrightarrow>
         (\<forall>b. in_band b x \<longleftrightarrow> b = Age_Group (Some x))
         \<and> (\<forall>row\<in>set (vuln_age_query vs). counted_in v row \<longrightarrow> in_band (fst (snd row)) x)"
    using in_band_iff_Age_Group[of x] counted_in_band[of v] assms(3) by auto
  have "Age_Group (Some 30) = ''30-90 days''" "Age_Group (Some 90) = ''30-90 days''"
    "Age_Group (Some 91) = ''91-180 days''"
    by (simp_all add: Age_Group_Some)
  then show ?thesis
    using counted_once[OF assms(1,2)] row pos vuln_age_query_total[of vs] band
    by (intro conjI) assumption+
qed

theorem aging_band_of_value_witness:
  "vuln_it (Some 45) \<in> set [vuln_it (Some 10), vuln_it (Some 45)]
   \<and> is_open (vuln_it (Some 45)) \<and> Days_Open (vuln_it (Some 45)) = Some 45
   \<and> ((45::rat) \<le> 90 \<or> (91::rat) \<le> 45)
   \<and> length (filter (counted_in (vuln_it (Some 45)))
        (vuln_age_query [vuln_it (Some 10), vuln_it (Some 45)])) = 1
   \<and> (''IT'', ''30-90 days'', 1) \<in> set (vuln_age_query [vuln_it (Some 10), vuln_it (Some 45)])
   \<and> in_band ''30-90 days'' 45 \<and> \<not> in_band ''< 30 days'' 45"
  using aging_band_of_value[of "vuln_it (Some 45)" "[vuln_it (Some 10), vuln_it (Some 45)]" 45]
  by (simp add: vuln_it_def is_open_def open_in_def Age_Group_Some)

text \<open>
  Claim C1 as stated fails for a value strictly between 90 and 91: a single open IT
  vulnerability with 90.5 days open is counted in the row of the band > 180 days, and
  90.5 lies in none of the four bands, not in > 180 days either.
\<close>

theorem aging_band_gap_counterexample:
  "vuln_age_query [vuln_it (Some (181 / 2))] = [(''IT'', ''> 180 days'', 1)]
   \<and> \<not> in_band ''> 180 days'' (181 / 2) \<and> \<not> in_band ''< 30 days'' (181 / 2)
   \<and> \<not> in_band ''30-90 days'' (181 / 2) \<and> \<not> in_band ''91-180 days'' (181 / 2)"
proof -
  have "vuln_age_query [vuln_it (Some (181 / 2))] = [(''IT'', ''> 180 days'', 1)]"
    by (simp add: vuln_age_query_def vuln_it_def is_open_def age_key_def Age_Group_Some
        group_keys_asc_def group_rows_def)
  then show ?thesis
    by (simp add: in_band_def)
qed

text \<open>
  Claim C9. An open vulnerability whose days-open value is NULL takes the \<^verbatim>\<open>ELSE\<close>
  branch: its band is > 180 days, and the table has the row of its department and that
  band, whose count includes it; it is counted in exactly one row.
\<close>

theorem null_days_open_counted_over_180:
  assumes "v \<in> set vs" and "is_open v" and "Days_Open v = None"
  shows "Age_Group (Days_Open v) = ''> 180 days''
    \<and> (Department v, ''> 180 days'',
         length (filter (\<lambda>u. is_open u \<and> age_key u = age_key v) vs)) \<in> set (vuln_age_query vs)
    \<and> 0 < length (filter (\<lambda>u. is_open u \<and> age_key u = age_key v) vs)
    \<and> length (filter (counted_in v) (vuln_age_query vs)) = 1"
proof -
  have "v \<in> set (filter (\<lambda>u. is_open u \<and> age_key u = age_key v) vs)"
    using assms by simp
  then have "0 < length (filter (\<lambda>u. is_open u \<and> age_key u = age_key v) vs)"
    by (metis length_pos_if_in_set)
  then show ?thesis
    using counted_once[OF assms(1,2)] vuln_age_query_row[OF assms(1,2)] assms(3)
    by (simp add: Age_Group_None)
qed

theorem null_days_open_counted_over_180_witness:
  "vuln_it None \<in> set [vuln_it (Some 200), vuln_it None] \<and> is_open (vuln_it None)
   \<and> Days_Open (vuln_it None) = None
   \<and> (''IT'', ''> 180 days'', 2) \<in> set (vuln_age_query [vuln_it (Some 200), vuln_it None])"
  using null_days_open_counted_over_180[of "vuln_it None" "[vuln_it (Some 200), vuln_it None]"]
  by (simp add: vuln_it_def is_open_def age_key_def Age_Group_Some Age_Group_None
      numeral_2_eq_2)

subsection \<open>The aging matrix\<close>

lemma position_less: "a \<in> set xs \<Longrightarrow> position a xs < length xs"
  by (induction xs) auto

lemma nth_position: "a \<in> set xs \<Longrightarrow> xs ! position a xs = a"
  by (induction xs) auto

lemma vuln_age_query_keys_distinct:
  "distinct (map (\<lambda>(d, b, c). (d, b)) (vuln_age_query vs))"
proof -
  let ?ks = "group_keys_asc (map age_key (filter is_open vs))"
  let ?mk = "\<lambda>k. (fst k, snd k, length (group_rows age_key (filter is_open vs) k))"
  let ?F = "\<lambda>(d, b, c). (d, b)"
  let ?G = "\<lambda>(d, b, c). (d, Age_Rank b)"
  have "mset (map ?F (sort_key ?G (map ?mk ?ks))) = mset (map ?F (map ?mk ?ks))"
    by (simp only: mset_map mset_sort)
  moreover have "map ?F (map ?mk ?ks) = ?ks"
    by (simp add: o_def)
  ultimately have "mset (map ?F (vuln_age_query vs)) = mset ?ks"
    by (simp only: vuln_age_query_alt)
  then show ?thesis
    by (metis distinct_group_keys_asc mset_eq_imp_distinct_iff)
qed

lemma vuln_age_query_sorted:
  "sorted (map (\<lambda>(d, b, c). (d, Age_Rank b)) (vuln_age_query vs))"
  by (simp add: vuln_age_query_alt)

lemma grid_nth:
  "d \<in> set idx \<Longrightarrow> b \<in> set cols \<Longrightarrow>
   map (\<lambda>d. map (\<lambda>b. f d b) cols) idx ! position d idx ! position b cols = f d b"
  by (simp add: position_less nth_position)

lemma pivot_ok:
  assumes "distinct (map (\<lambda>(d, b, c). (d, b)) rows)"
  shows "\<exists>m. pivot rows = Inr m \<and> index m = sort (remdups (map (\<lambda>(d, b, c). d) rows))
     \<and> columns m = sort (remdups (map (\<lambda>(d, b, c). b) rows))
     \<and> length (cells m) = length (index m)
     \<and> (\<forall>r\<in>set (cells m). length r = length (columns m))
     \<and> (\<forall>d\<in>set (index m). \<forall>b\<in>set (columns m). loc m d b = Some (long_form_count rows d b))"
proof -
  let ?idx = "sort (remdups (map (\<lambda>(d, b, c). d) rows))"
  let ?cols = "sort (remdups (map (\<lambda>(d, b, c). b) rows))"
  let ?m = "\<lparr>index = ?idx, columns = ?cols,
     cells = map (\<lambda>d. map (\<lambda>b. long_form_count rows d b) ?cols) ?idx\<rparr>"
  have "pivot rows = Inr ?m"
    using assms by (simp add: pivot_def Let_def long_form_count_def)
  moreover have "loc ?m d b = Some (long_form_count rows d b)"
    if "d \<in> set ?idx" "b \<in> set ?cols" for d b
    using that grid_nth[OF that, of "long_form_count rows"] by (simp add: loc_def)
  moreover have "\<forall>r\<in>set (cells ?m). length r = length (columns ?m)"
    by auto
  ultimately show ?thesis
    by (intro exI[of _ ?m]) simp
qed

lemma fillna_loc:
  assumes "length (cells m) = length (index m)"
    and "\<forall>r\<in>set (cells m). length r = length (columns m)"
  shows "loc (fillna z m) d b = map_option (\<lambda>v. case v of None \<Rightarrow> z | Some c \<Rightarrow> c) (loc m d b)"
proof (cases "d \<in> set (index m) \<and> b \<in> set (columns m)")
  case True
  then have i: "position d (index m) < length (cells m)"
    using assms(1) by (simp add: position_less)
  then have "cells m ! position d (index m) \<in> set (cells m)"
    by simp
  then have j: "position b (columns m) < length (cells m ! position d (index m))"
    using assms(2) True by (simp add: position_less)
  show ?thesis
    using True i j by (simp add: loc_def fillna_def)
next
  case False
  then show ?thesis by (auto simp: loc_def fillna_def)
qed

lemma vuln_age_pivot_ok:
  "\<exists>m. vuln_age_pivot vs = Inr m
     \<and> index m = sort (remdups (map (\<lambda>(d, b, c). d) (vuln_age_query vs)))
     \<and> columns m = sort (remdups (map (\<lambda>(d, b, c). b) (vuln_age_query vs)))
     \<and> (\<forall>d\<in>set (index m). \<forall>b\<in>set (columns m).
          loc m d b = Some (case long_form_count (vuln_age_query vs) d b of
                              None \<Rightarrow> 0 | Some c \<Rightarrow> c))"
proof -
  obtain m0 where m0: "pivot (vuln_age_query vs) = Inr m0"
    "index m0 = sort (remdups (map (\<lambda>(d, b, c). d) (vuln_age_query vs)))"
    "columns m0 = sort (remdups (map (\<lambda>(d, b, c). b) (vuln_age_query vs)))"
    "length (cells m0) = length (index m0)"
    "\<forall>r\<in>set (cells m0). length r = length (columns m0)"
    "\<forall>d\<in>set (index m0). \<forall>b\<in>set (columns m0).
       loc m0 d b = Some (long_form_count (vuln_age_query vs) d b)"
    using pivot_ok[OF vuln_age_query_keys_distinct, of vs] by blast
  have "vuln_age_pivot vs = Inr (fillna 0 m0)"
    by (simp add: vuln_age_pivot_def m0(1))
  moreover have "index (fillna 0 m0) = index m0" "columns (fillna 0 m0) = columns m0"
    by (simp_all add: fillna_def)
  moreover have "loc (fillna 0 m0) d b =
      Some (case long_form_count (vuln_age_query vs) d b of None \<Rightarrow> 0 | Some c \<Rightarrow> c)"
    if "d \<in> set (index m0)" "b \<in> set (columns m0)" for d b
    using that m0(6) fillna_loc[OF m0(4,5), of 0 d b] by simp
  ultimately show ?thesis
    using m0(2,3) by (intro exI[of _ "fillna 0 m0"]) simp
qed

lemma aging_example_long_form:
  "vuln_age_query aging_example =
     [(''IT'', ''< 30 days'', 1), (''IT'', ''30-90 days'', 1),
      (''IT'', ''91-180 days'', 1), (''IT'', ''> 180 days'', 1)]"
  by code_simp

lemma aging_example_pivot:
  "vuln_age_pivot aging_example =
     Inr \<lparr>index = [''IT''],
          columns = [''30-90 days'', ''91-180 days'', ''< 30 days'', ''> 180 days''],
          cells = [[1, 1, 1, 1]]\<rparr>"
  by code_simp

lemma set_vuln_age_query:
  "set (vuln_age_query vs) =
     (\<lambda>k. (fst k, snd k, length (group_rows age_key (filter is_open vs) k)))
       ` age_key ` set (filter is_open vs)"
  by (simp add: vuln_age_query_alt)

lemma group_rows_age_key:
  "length (group_rows age_key (filter is_open vs) (d, b)) = open_in vs d b"
  by (simp add: group_rows_def open_in_def age_key_def conj_commute conj_left_commute)

lemma open_in_pos_iff:
  "0 < open_in vs d b \<longleftrightarrow> (d, b) \<in> age_key ` set (filter is_open vs)"
  by (auto simp: open_in_def age_key_def filter_empty_conv image_iff)

lemma long_form_count_eq:
  "long_form_count (vuln_age_query vs) d b =
     (if open_in vs d b = 0 then None else Some (open_in vs d b))"
proof (cases "(d, b) \<in> age_key ` set (filter is_open vs)")
  case True
  then have "(\<lambda>k. (fst k, snd k, length (group_rows age_key (filter is_open vs) k))) (d, b)
      \<in> set (vuln_age_query vs)"
    unfolding set_vuln_age_query by (rule imageI)
  then have "(d, b, open_in vs d b) \<in> set (vuln_age_query vs)"
    by (simp add: group_rows_age_key)
  then have "((d, b), open_in vs d b) \<in> set (map (\<lambda>(d, b, c). ((d, b), c)) (vuln_age_query vs))"
    by force
  moreover have "distinct (map fst (map (\<lambda>(d, b, c). ((d, b), c)) (vuln_age_query vs)))"
    using vuln_age_query_keys_distinct[of vs] by (simp add: o_def case_prod_unfold)
  ultimately have "long_form_count (vuln_age_query vs) d b = Some (open_in vs d b)"
    unfolding long_form_count_def by (rule map_of_is_SomeI[rotated])
  then show ?thesis
    using True open_in_pos_iff[of vs d b] by simp
next
  case False
  then have "(d, b) \<notin> fst ` set (map (\<lambda>(d, b, c). ((d, b), c)) (vuln_age_query vs))"
    by (force simp: set_vuln_age_query)
  then have "long_form_count (vuln_age_query vs) d b = None"
    by (metis long_form_count_def map_of_eq_None_iff)
  then show ?thesis
    using False open_in_pos_iff[of vs d b] by simp
qed

lemma vuln_age_pivot_shape:
  "\<exists>m. vuln_age_pivot vs = Inr m
     \<and> set (index m) = Department ` set (filter is_open vs) \<and> distinct (index m)
     \<and> set (columns m) = (\<lambda>v. Age_Group (Days_Open v)) ` set (filter is_open vs)
     \<and> distinct (columns m)
     \<and> length (cells m) = length (index m)
     \<and> (\<forall>r\<in>set (cells m). length r = length (columns m))
     \<and> (\<forall>d\<in>set (index m). \<forall>b\<in>set (columns m).
          loc m d b = Some (case long_form_count (vuln_age_query vs) d b of
                              None \<Rightarrow> 0 | Some c \<Rightarrow> c)
          \<and> loc m d b = Some (open_in vs d b))"
proof -
  obtain m0 where m0: "pivot (vuln_age_query vs) = Inr m0"
    "index m0 = sort (remdups (map (\<lambda>(d, b, c). d) (vuln_age_query vs)))"
    "columns m0 = sort (remdups (map (\<lambda>(d, b, c). b) (vuln_age_query vs)))"
    "length (cells m0) = length (index m0)"
    "\<forall>r\<in>set (cells m0). length r = length (columns m0)"
    using pivot_ok[OF vuln_age_query_keys_distinct, of vs] by blast
  obtain m where m: "vuln_age_pivot vs = Inr m"
    "index m = sort (remdups (map (\<lambda>(d, b, c). d) (vuln_age_query vs)))"
    "columns m = sort (remdups (map (\<lambda>(d, b, c). b) (vuln_age_query vs)))"
    "\<forall>d\<in>set (index m). \<forall>b\<in>set (columns m).
          loc m d b = Some (case long_form_count (vuln_age_query vs) d b of
                              None \<Rightarrow> 0 | Some c \<Rightarrow> c)"
    using vuln_age_pivot_ok[of vs] by blast
  have mm: "m = fillna 0 m0"
    using m(1) m0(1) by (simp add: vuln_age_pivot_def)
  have 1: "set (index m) = Department ` set (filter is_open vs)"
    unfolding m(2) by (force simp: set_vuln_age_query age_key_def image_iff)
  have 2: "set (columns m) = (\<lambda>v. Age_Group (Days_Open v)) ` set (filter is_open vs)"
    unfolding m(3) by (force simp: set_vuln_age_query age_key_def image_iff)
  have 3: "length (cells m) = length (index m)" "\<forall>r\<in>set (cells m). length r = length (columns m)"
    using m0(4,5) by (auto simp: mm fillna_def)
  have 4: "(case long_form_count (vuln_age_query vs) d b of None \<Rightarrow> 0 | Some c \<Rightarrow> c) = open_in vs d b"
    for d b
    by (simp add: long_form_count_eq)
  show ?thesis
    using m(1) 1 2 3 m(4) 4 by (intro exI[of _ m]) (simp add: m(2,3))
qed

text \<open>
  Claim C2, as amended. The long-form table is sorted by department and then by the rank
  of the band (1 to 4 in canonical order), with no (department, band) pair twice. Its
  reshape never raises; the rows of the matrix are the departments that have an open
  vulnerability, each once, and its columns are the bands that some open vulnerability
  falls in, each once, so a band that no open vulnerability falls in has no column. Every
  cell of the matrix holds the count of the long-form row of its department and band, or
  0 when there is no such row, which is the number of open vulnerabilities of that
  department in that band. For open vulnerabilities of department IT with 10, 45, 95 and
  200 days open, the long-form rows come in canonical order, although the label
  30-90 days precedes < 30 days alphabetically, and the IT row of the matrix reads
  1, 1, 1, 1 at the four bands taken in canonical order.
\<close>

theorem aging_long_form_order_and_matrix:
  "sorted (map (\<lambda>(d, b, c). (d, Age_Rank b)) (vuln_age_query vs))
   \<and> distinct (map (\<lambda>(d, b, c). (d, b)) (vuln_age_query vs))
   \<and> (\<exists>m. vuln_age_pivot vs = Inr m
        \<and> set (index m) = Department ` set (filter is_open vs) \<and> distinct (index m)
        \<and> set (columns m) = (\<lambda>v. Age_Group (Days_Open v)) ` set (filter is_open vs)
        \<and> distinct (columns m)
        \<and> length (cells m) = length (index m)
        \<and> (\<forall>r\<in>set (cells m). length r = length (columns m))
        \<and> (\<forall>d\<in>set (index m). \<forall>b\<in>set (columns m).
             loc m d b = Some (case long_form_count (vuln_age_query vs) d b of
                                 None \<Rightarrow> 0 | Some c \<Rightarrow> c)
             \<and> loc m d b = Some (open_in vs d b)))
   \<and> vuln_age_query aging_example =
        [(''IT'', ''< 30 days'', 1), (''IT'', ''30-90 days'', 1),
         (''IT'', ''91-180 days'', 1), (''IT'', ''> 180 days'', 1)]
   \<and> ''30-90 days'' < ''< 30 days''
   \<and> (\<exists>m. vuln_age_pivot aging_example = Inr m
        \<and> map (loc m ''IT'') age_bands = [Some 1, Some 1, Some 1, Some 1])"
proof -
  have "map (loc \<lparr>index = [''IT''],
          columns = [''30-90 days'', ''91-180 days'', ''< 30 days'', ''> 180 days''],
          cells = [[1, 1, 1, 1::nat]]\<rparr> ''IT'') age_bands = [Some 1, Some 1, Some 1, Some 1]"
    by (simp add: loc_def age_bands_def)
  then have "\<exists>m. vuln_age_pivot aging_example = Inr m
        \<and> map (loc m ''IT'') age_bands = [Some 1, Some 1, Some 1, Some 1]"
    using aging_example_pivot by simp
  moreover have "''30-90 days'' < ''< 30 days''"
    by simp
  ultimately show ?thesis
    using vuln_age_query_sorted[of vs] vuln_age_query_keys_distinct[of vs]
      aging_example_long_form vuln_age_pivot_shape[of vs]
    by (intro conjI) assumption+
qed

theorem aging_long_form_order_and_matrix_witness:
  "vuln_age_pivot two_dept_example =
     Inr \<lparr>index = [''HR'', ''IT''], columns = [''< 30 days'', ''> 180 days''],
          cells = [[0, 1], [1, 0]]\<rparr>
   \<and> ''IT'' \<in> set [''HR'', ''IT''] \<and> ''> 180 days'' \<in> set [''< 30 days'', ''> 180 days'']
   \<and> long_form_count (vuln_age_query two_dept_example) ''IT'' ''> 180 days'' = None
   \<and> Department ` set (filter is_open two_dept_example) = {''HR'', ''IT''}
   \<and> (\<exists>m. vuln_age_pivot two_dept_example = Inr m \<and> set (index m) = {''HR'', ''IT''}
        \<and> loc m ''IT'' ''> 180 days'' = Some 0 \<and> open_in two_dept_example ''IT'' ''> 180 days'' = 0)"
proof -
  have p: "vuln_age_pivot two_dept_example =
     Inr \<lparr>index = [''HR'', ''IT''], columns = [''< 30 days'', ''> 180 days''],
          cells = [[0, 1], [1, 0]]\<rparr>"
    by code_simp
  have n: "long_form_count (vuln_age_query two_dept_example) ''IT'' ''> 180 days'' = None"
    by code_simp
  have dep: "Department ` set (filter is_open two_dept_example) = {''HR'', ''IT''}"
    by (auto simp: two_dept_example_def vuln_it_def vuln_closed_def is_open_def)
  obtain m where m: "vuln_age_pivot two_dept_example = Inr m"
    "set (index m) = Department ` set (filter is_open two_dept_example)"
    "\<forall>d\<in>set (index m). \<forall>b\<in>set (columns m).
       loc m d b = Some (case long_form_count (vuln_age_query two_dept_example) d b of
                           None \<Rightarrow> 0 | Some c \<Rightarrow> c)
       \<and> loc m d b = Some (open_in two_dept_example d b)"
    using aging_long_form_order_and_matrix[of two_dept_example] by blast
  from m(1) p have "m = \<lparr>index = [''HR'', ''IT''], columns = [''< 30 days'', ''> 180 days''],
          cells = [[0, 1], [1, 0]]\<rparr>"
    by simp
  then have "index m = [''HR'', ''IT'']" "columns m = [''< 30 days'', ''> 180 days'']"
    by simp_all
  then have "''IT'' \<in> set (index m)" "''> 180 days'' \<in> set (columns m)"
    by simp_all
  with m(3) have a: "loc m ''IT'' ''> 180 days'' =
      Some (case long_form_count (vuln_age_query two_dept_example) ''IT'' ''> 180 days'' of
              None \<Rightarrow> 0 | Some c \<Rightarrow> c)"
    and b: "loc m ''IT'' ''> 180 days'' = Some (open_in two_dept_example ''IT'' ''> 180 days'')"
    by blast+
  from a n have c: "loc m ''IT'' ''> 180 days'' = Some 0"
    by simp
  with b have "open_in two_dept_example ''IT'' ''> 180 days'' = 0"
    by simp
  with c have "loc m ''IT'' ''> 180 days'' = Some 0"
    "open_in two_dept_example ''IT'' ''> 180 days'' = 0"
    by simp_all
  with m(1,2) p n dep show ?thesis by auto
qed

text \<open>
  Claim C2 as stated fails where a band occurs in no long-form row: the matrix has a
  column only for the bands that occur. With one open IT vulnerability of 10 days and
  one open HR vulnerability of 200 days, IT is a row of the matrix and 30-90 days is one
  of the four bands, the pair has no long-form row, and the matrix has no cell for it
  rather than a cell holding zero.
\<close>

theorem aging_matrix_absent_band_counterexample:
  "vuln_age_pivot two_dept_example =
     Inr \<lparr>index = [''HR'', ''IT''], columns = [''< 30 days'', ''> 180 days''],
          cells = [[0, 1], [1, 0]]\<rparr>
   \<and> ''30-90 days'' \<in> set age_bands
   \<and> long_form_count (vuln_age_query two_dept_example) ''IT'' ''30-90 days'' = None
   \<and> loc \<lparr>index = [''HR'', ''IT''], columns = [''< 30 days'', ''> 180 days''],
          cells = [[0, 1], [1, 0::nat]]\<rparr> ''IT'' ''30-90 days'' \<noteq> Some 0"
proof -
  have "vuln_age_pivot two_dept_example =
     Inr \<lparr>index = [''HR'', ''IT''], columns = [''< 30 days'', ''> 180 days''],
          cells = [[0, 1], [1, 0]]\<rparr>"
    by code_simp
  moreover have "long_form_count (vuln_age_query two_dept_example) ''IT'' ''30-90 days'' = None"
    by code_simp
  ultimately show ?thesis
    by (simp add: age_bands_def loc_def)
qed

text \<open>The columns of the matrix are in the order of the labels as text, not in canonical order.\<close>

lemma aging_matrix_columns_lexicographic:
  "\<exists>m. vuln_age_pivot aging_example = Inr m
     \<and> columns m = [''30-90 days'', ''91-180 days'', ''< 30 days'', ''> 180 days'']"
  using aging_example_pivot by simp

subsection \<open>Empty filtered input\<close>

text \<open>
  Claim C7. When no vulnerability is open, Vulnerability Hotspots, Vulnerability Aging
  and Top Vulnerability Types (with its display titles) are empty and the reshape of the
  aging table returns the empty matrix instead of raising; when no vulnerability is both
  critical and open, Critical Vulnerabilities by Department is empty; when the table has
  no row, Vulnerability Status is empty.
\<close>

theorem empty_filtered_input_gives_empty_tables:
  "(filter is_open vs = [] \<longrightarrow>
       vuln_hotspot_query vs = [] \<and> vuln_age_query vs = []
       \<and> vuln_age_pivot vs = Inr \<lparr>index = [], columns = [], cells = []\<rparr>
       \<and> vuln_type_query vs = [] \<and> vuln_type_df vs = [] \<and> critical_vuln_query vs = [])
   \<and> (filter (\<lambda>v. is_critical v \<and> is_open v) vs = [] \<longrightarrow> critical_vuln_query vs = [])
   \<and> (vs = [] \<longrightarrow> status_query vs = [])"
proof -
  have "filter (\<lambda>v. is_critical v \<and> is_open v) vs = []" if "filter is_open vs = []"
    using that by (auto simp: filter_empty_conv)
  then show ?thesis
    by (auto simp: vuln_hotspot_query_def vuln_age_query_def vuln_age_pivot_def pivot_def
        fillna_def vuln_type_query_def vuln_type_df_def critical_vuln_query_def
        status_query_def group_keys_desc_def group_keys_asc_def order_by_desc_def Let_def)
qed

theorem empty_filtered_input_gives_empty_tables_witness:
  "filter is_open [vuln_closed] = []
   \<and> filter (\<lambda>v. is_critical v \<and> is_open v) [vuln_closed] = []
   \<and> vuln_hotspot_query [vuln_closed] = [] \<and> vuln_age_query [vuln_closed] = []
   \<and> vuln_age_pivot [vuln_closed] = Inr \<lparr>index = [], columns = [], cells = []\<rparr>
   \<and> vuln_type_df [vuln_closed] = [] \<and> critical_vuln_query [vuln_closed] = []
   \<and> status_query [] = [] \<and> status_query [vuln_closed] = [(''Closed'', 1)]"
proof -
  have "\<not> is_open vuln_closed"
    by (simp add: vuln_closed_def is_open_def)
  moreover have "status_query [vuln_closed] = [(''Closed'', 1)]"
    by (simp add: status_query_def group_keys_asc_def group_rows_def vuln_closed_def)
  ultimately show ?thesis
    using empty_filtered_input_gives_empty_tables[of "[vuln_closed]"]
      empty_filtered_input_gives_empty_tables[of "[]"]
    by simp
qed

subsection \<open>MTTR Trend\<close>

lemma Month_jan_2024: "Month (jan_2024 d sev mins) = Some ''2024-01''"
  by (simp add: Month_def jan_2024_def strftime_Ym_def digit_char_def)

lemma non_null_values:
  "concat (map ((\<lambda>x. case x of None \<Rightarrow> [] | Some y \<Rightarrow> [y]) \<circ> Some) xs) = xs"
  by (induction xs) simp_all

lemma sql_avg_Some:
  "xs \<noteq> [] \<Longrightarrow> sql_avg (map Some xs) = Some (sum_list xs / of_nat (length xs))"
  by (simp add: sql_avg_def non_null_values)

lemma jan_fields:
  "mttr_selected (jan_2024 d sev mins)" "Response_Time_Min (jan_2024 d sev mins) = Some mins"
  "is_critical_incident (jan_2024 d sev mins) \<longleftrightarrow> sev = ''Critical''"
  by (simp_all add: jan_2024_def mttr_selected_def is_critical_incident_def)

lemma round1_tenths: "round1 (of_int n / 10) = of_int n / 10"
proof -
  have "\<lfloor>rat_of_int k + 1 / 2\<rfloor> = k" for k
    by (simp add: floor_eq_iff)
  then show ?thesis
    by (simp add: round1_def zero_le_divide_iff)
qed

lemma mttr_example:
  "mttr_query [jan_2024 d1 s1 30, jan_2024 d2 s2 60, jan_2024 d3 s3 90] =
     [(Some ''2024-01'', 3,
       sum_case (\<lambda>s. s = ''Critical'') [s1, s2, s3], Some 1)]"
proof -
  have "sql_avg [Some 30, Some 60, Some 90] = Some 60"
    using sql_avg_Some[of "[30, 60, 90]"] by simp
  moreover have "round1 1 = 1"
    using round1_tenths[of 10] by simp
  ultimately show ?thesis
    by (simp add: mttr_query_def jan_fields Month_jan_2024 group_keys_asc_def group_rows_def
      sum_case_def Let_def)
qed
















end
